theory Spec2Isabelle
  imports Complex_Main "HOL-Library.Multiset"
begin

section \<open>Dates, the clock and the zone of the process\<close>

text \<open>
  The program keeps calendar days as strings \<^verbatim>\<open>YYYY-MM-DD\<close> and computes with
  JavaScript \<^verbatim>\<open>Date\<close> objects. A \<^verbatim>\<open>Date\<close> is a number of milliseconds since
  1970-01-01T00:00Z. A well-formed date string is represented here by the calendar day
  it denotes, counted in days since 1970-01-01 (\<open>isoDate\<close> gives the number of a
  year, month and day), so that equality of date strings is equality of day numbers.
  The runtime's operations on dates that the program calls are:
  \<^item> \<^verbatim>\<open>new Date("YYYY-MM-DD")\<close>: a date-only string is read as midnight UTC
    (\<open>parseDate\<close>);
  \<^item> \<^verbatim>\<open>toLocaleDateString("en-CA")\<close>: the calendar day of an instant in the zone of
    the process, or in the zone named by the \<^verbatim>\<open>timeZone\<close> option
    (\<open>toLocaleDateString\<close>, with the zone's offset from UTC in milliseconds);
  \<^item> \<^verbatim>\<open>cursor.setDate(cursor.getDate() - 1)\<close>: the same local time on the previous
    local day (\<open>setDatePrev\<close>).
  The zone of the process is modelled by a constant offset from UTC (no daylight
  saving transition); Asia/Kolkata is UTC+05:30 all year. Strings that are not dates
  are outside the model: the day records are created with the string that \<^verbatim>\<open>today()\<close>
  returns.
\<close>

type_synonym dateString = int
type_synonym jsDate = int

definition msPerDay :: int where
  "msPerDay = 1000 * 60 * 60 * 24"

definition kolkataOffset :: int where
  "kolkataOffset = (5 * 60 + 30) * 60 * 1000"

definition isoDate :: "int \<Rightarrow> int \<Rightarrow> int \<Rightarrow> dateString" where
  "isoDate y m d =
     (let y' = (if m \<le> 2 then y - 1 else y);
          era = y' div 400;
          yoe = y' - era * 400;
          doy = (153 * (if 2 < m then m - 3 else m + 9) + 2) div 5 + d - 1;
          doe = yoe * 365 + yoe div 4 - yoe div 100 + doy
      in era * 146097 + doe - 719468)"

record env =
  now :: jsDate
  tzOffset :: int

definition parseDate :: "dateString \<Rightarrow> jsDate" where
  "parseDate d = d * msPerDay"

definition toLocaleDateString :: "int \<Rightarrow> jsDate \<Rightarrow> dateString" where
  "toLocaleDateString off t = (t + off) div msPerDay"

definition setDatePrev :: "jsDate \<Rightarrow> jsDate" where
  "setDatePrev t = t - msPerDay"

text \<open>\<^verbatim>\<open>today()\<close>: the calendar day of the clock's instant in Asia/Kolkata.\<close>

definition today :: "env \<Rightarrow> dateString" where
  "today e = toLocaleDateString kolkataOffset (now e)"

section \<open>Day records\<close>

record day =
  date :: dateString
  completedTasks :: "string list"
  points :: int
  note' :: string

section \<open>getCurrentStreak\<close>

text \<open>
  The \<^verbatim>\<open>while\<close> loop of \<^verbatim>\<open>getCurrentStreak\<close>; a run that never leaves the loop
  is the value \<open>None\<close>.
\<close>

partial_function (option) streakLoop :: "dateString set \<Rightarrow> int \<Rightarrow> jsDate \<Rightarrow> nat \<Rightarrow> nat option" where
  "streakLoop dateSet off cursor streak =
     (if toLocaleDateString off cursor \<in> dateSet
      then streakLoop dateSet off (setDatePrev cursor) (streak + 1)
      else Some streak)"

definition getCurrentStreak :: "env \<Rightarrow> day list \<Rightarrow> nat option" where
  "getCurrentStreak e days =
     streakLoop (set (map date days)) (tzOffset e) (parseDate (today e)) 0"

text \<open>
  A record as the route \<^verbatim>\<open>/submit\<close> creates it: one point for each completed task.
\<close>

definition submitDay :: "dateString \<Rightarrow> string list \<Rightarrow> string \<Rightarrow> day" where
  "submitDay d completed n =
     \<lparr>date = d, completedTasks = completed, points = int (length completed), note' = n\<rparr>"

section \<open>getLongestStreak\<close>

text \<open>
  The \<^verbatim>\<open>for\<close> loop over the sorted instants, from index 1. The difference of two
  instants is divided by the milliseconds of a day and compared with 1. (The quotient
  is taken exactly; the floating-point quotient of two integers of this size is 1 only
  when they are equal.) The comparator \<^verbatim>\<open>(a, b) => a - b\<close> sorts the instants in
  ascending order.
\<close>

function longestLoop :: "jsDate list \<Rightarrow> nat \<Rightarrow> nat \<Rightarrow> nat \<Rightarrow> nat" where
  "longestLoop sorted' i current longest =
     (if i < length sorted'
      then (let diff = (of_int (sorted' ! i - sorted' ! (i - 1)) :: rat) / of_int msPerDay
            in if diff = 1
               then longestLoop sorted' (i + 1) (current + 1) (max longest (current + 1))
               else longestLoop sorted' (i + 1) 1 longest)
      else longest)"
  by pat_completeness auto
termination
  by (relation "measure (\<lambda>(sorted', i, current, longest). length sorted' - i)") auto

declare longestLoop.simps [simp del]

definition getLongestStreak :: "day list \<Rightarrow> nat" where
  "getLongestStreak days =
     (if length days = 0 then 0
      else longestLoop (sort (map (\<lambda>d. parseDate (date d)) days)) 1 1 1)"

section \<open>getLast7Dates\<close>




section \<open>getWeeklySummary\<close>










section \<open>getWeeklyMotivation\<close>

text \<open>Texts outside ASCII are written as their UTF-8 bytes.\<close>

definition msgStrongWeek :: string where
  "msgStrongWeek =
     ''Strong week. You'' @ [CHR 0xE2, CHR 0x80, CHR 0x99] @ ''re building real momentum '' @ [CHR 0xF0, CHR 0x9F, CHR 0x92, CHR 0xAA]"

definition msgSteadyProgress :: string where
  "msgSteadyProgress =
     ''Steady progress beats intensity. Keep going '' @ [CHR 0xF0, CHR 0x9F, CHR 0x8C, CHR 0xB1]"

definition msgImperfect :: string where
  "msgImperfect =
     ''Even imperfect weeks move you forward.''"

definition msgResetWeek :: string where
  "msgResetWeek =
     ''A reset week is not failure '' @ [CHR 0xE2, CHR 0x80, CHR 0x94] @ '' it'' @ [CHR 0xE2, CHR 0x80, CHR 0x99] @ ''s information.''"


definition getWeeklyMotivation :: "rat \<Rightarrow> string" where
  "getWeeklyMotivation avg =
     (if 4 \<le> avg then msgStrongWeek
      else if 2 \<le> avg then msgSteadyProgress
      else if 0 < avg then msgImperfect
      else msgResetWeek)"

section \<open>getMotivationMessage\<close>

definition motivationMessages :: "string list" where
  "motivationMessages =
    [''Consistency beats motivation. See you tomorrow '' @ [CHR 0xF0, CHR 0x9F, CHR 0x94, CHR 0xA5],
     ''Small steps every day lead to big results '' @ [CHR 0xF0, CHR 0x9F, CHR 0x92, CHR 0xAA],
     ''You showed up today. That'' @ [CHR 0xE2, CHR 0x80, CHR 0x99] @ ''s what matters '' @ [CHR 0xF0, CHR 0x9F, CHR 0x91, CHR 0x8F],
     ''Progress over perfection. Keep moving '' @ [CHR 0xE2, CHR 0x9C, CHR 0xA8],
     ''Discipline is not force '' @ [CHR 0xE2, CHR 0x80, CHR 0x94] @ '' it'' @ [CHR 0xE2, CHR 0x80, CHR 0x99] @ ''s love for your future self '' @ [CHR 0xF0, CHR 0x9F, CHR 0x8C, CHR 0xB1],
     ''When you act consciously, even small acts become powerful '' @ [CHR 0xF0, CHR 0x9F, CHR 0x94, CHR 0xA5],
     ''Don'' @ [CHR 0xE2, CHR 0x80, CHR 0x99] @ ''t wait for motivation. Awareness itself creates energy.'',
     ''Your daily actions are your meditation in motion '' @ [CHR 0xF0, CHR 0x9F, CHR 0xA7, CHR 0x98],
     ''Drop by drop, the pot is filled. Continue calmly '' @ [CHR 0xF0, CHR 0x9F, CHR 0x8C, CHR 0x8A],
     ''Right effort today makes tomorrow lighter.'',
     ''Peace comes from steady practice, not sudden bursts.'',
     ''Walk the path patiently '' @ [CHR 0xE2, CHR 0x80, CHR 0x94] @ '' every step counts '' @ [CHR 0xE2, CHR 0x98, CHR 0xB8, CHR 0xEF, CHR 0xB8, CHR 0x8F],
     ''Become stronger through repetition '' @ [CHR 0xE2, CHR 0x80, CHR 0x94] @ '' that is the way.'',
     ''He who has a reason to continue will endure the day.'',
     ''Comfort weakens the will. Discipline sharpens it '' @ [CHR 0xE2, CHR 0x9A, CHR 0x94, CHR 0xEF, CHR 0xB8, CHR 0x8F],
     ''You are becoming '' @ [CHR 0xE2, CHR 0x80, CHR 0x94] @ '' do not interrupt the process.'',
     ''Stay hungry. Comfort kills growth.'',
     ''Discipline creates options. Laziness closes doors.'',
     ''Do the work quietly. Results will make noise.'',
     ''No excuses today. That'' @ [CHR 0xE2, CHR 0x80, CHR 0x99] @ ''s how momentum is built.'',
     ''You didn'' @ [CHR 0xE2, CHR 0x80, CHR 0x99] @ ''t rely on mood today '' @ [CHR 0xE2, CHR 0x80, CHR 0x94] @ '' you relied on discipline.'',
     ''Show up again tomorrow. That'' @ [CHR 0xE2, CHR 0x80, CHR 0x99] @ ''s how identity is built.'',
     ''One focused day beats ten emotional plans.'',
     ''You'' @ [CHR 0xE2, CHR 0x80, CHR 0x99] @ ''re training your mind more than your body today '' @ [CHR 0xF0, CHR 0x9F, CHR 0x92, CHR 0xAF]]"

text \<open>
  \<^verbatim>\<open>Math.random()\<close> is the parameter \<open>random\<close>. Reading a list outside its
  bounds gives \<^verbatim>\<open>undefined\<close>, here \<open>None\<close>.
\<close>

definition getMotivationMessage :: "rat \<Rightarrow> string option" where
  "getMotivationMessage random =
     (let index = \<lfloor>random * of_nat (length motivationMessages)\<rfloor>
      in if 0 \<le> index \<and> index < int (length motivationMessages)
         then Some (motivationMessages ! nat index)
         else None)"

section \<open>getTaskFrequency\<close>

text \<open>
  The tally \<^verbatim>\<open>freq\<close> is an ordinary object created by \<^verbatim>\<open>{}\<close>: its own properties,
  in the order of their creation, are an association list, and a key that it does not
  own is looked up in \<^verbatim>\<open>Object.prototype\<close>. The values such a lookup can give:
\<close>

datatype jsval =
    Undefined
  | NaN
  | Num int
  | Str string
  | NativeFunction string
  | ObjectPrototype

type_synonym jsObject = "(string \<times> jsval) list"

text \<open>
  The properties of \<^verbatim>\<open>Object.prototype\<close>: the constructor \<^verbatim>\<open>Object\<close>, the built-in
  methods (each a function whose name is its key), and the accessor \<^verbatim>\<open>__proto__\<close>,
  which reads as \<^verbatim>\<open>Object.prototype\<close> itself.
\<close>

definition objectPrototypeMethods :: "string list" where
  "objectPrototypeMethods =
     [''__defineGetter__'', ''__defineSetter__'', ''hasOwnProperty'', ''__lookupGetter__'',
      ''__lookupSetter__'', ''isPrototypeOf'', ''propertyIsEnumerable'', ''toString'',
      ''valueOf'', ''toLocaleString'']"

definition inherited :: "string \<Rightarrow> jsval" where
  "inherited k =
     (if k = ''constructor'' then NativeFunction ''Object''
      else if k \<in> set objectPrototypeMethods then NativeFunction k
      else if k = ''__proto__'' then ObjectPrototype
      else Undefined)"

text \<open>\<^verbatim>\<open>freq[task]\<close>, read.\<close>

definition getProp :: "jsObject \<Rightarrow> string \<Rightarrow> jsval" where
  "getProp obj k = (case map_of obj k of Some v \<Rightarrow> v | None \<Rightarrow> inherited k)"

text \<open>
  \<^verbatim>\<open>freq[task] = v\<close>, with \<open>v\<close> a number or a string: the setter of \<^verbatim>\<open>__proto__\<close>
  ignores such a value; any other key becomes or stays an own property, a new one after
  the existing ones.
\<close>

fun setOwn :: "string \<Rightarrow> jsval \<Rightarrow> jsObject \<Rightarrow> jsObject" where
  "setOwn k v [] = [(k, v)]"
| "setOwn k v (p # ps) = (if fst p = k then (k, v) # ps else p # setOwn k v ps)"

definition setProp :: "jsObject \<Rightarrow> string \<Rightarrow> jsval \<Rightarrow> jsObject" where
  "setProp obj k v = (if k = ''__proto__'' then obj else setOwn k v obj)"

text \<open>\<^verbatim>\<open>x || 0\<close>.\<close>

fun truthy :: "jsval \<Rightarrow> bool" where
  "truthy Undefined = False"
| "truthy NaN = False"
| "truthy (Num n) = (n \<noteq> 0)"
| "truthy (Str s) = (s \<noteq> [])"
| "truthy (NativeFunction f) = True"
| "truthy ObjectPrototype = True"

definition orZero :: "jsval \<Rightarrow> jsval" where
  "orZero x = (if truthy x then x else Num 0)"

text \<open>
  \<^verbatim>\<open>x + 1\<close>. A number is incremented. A string gets the character 1 appended. A
  function or an object is first turned into a string: a built-in function into its
  source text as Node.js prints it, \<^verbatim>\<open>Object.prototype\<close> into \<^verbatim>\<open>[object Object]\<close>.
\<close>

fun plusOne :: "jsval \<Rightarrow> jsval" where
  "plusOne Undefined = NaN"
| "plusOne NaN = NaN"
| "plusOne (Num n) = Num (n + 1)"
| "plusOne (Str s) = Str (s @ ''1'')"
| "plusOne (NativeFunction f) = Str (''function '' @ f @ ''() { [native code] }'' @ ''1'')"
| "plusOne ObjectPrototype = Str (''[object Object]'' @ ''1'')"

text \<open>The body of the inner \<^verbatim>\<open>forEach\<close>, and the two loops.\<close>

definition countTask :: "string \<Rightarrow> jsObject \<Rightarrow> jsObject" where
  "countTask t freq = setProp freq t (plusOne (orZero (getProp freq t)))"

definition tallyTasks :: "day list \<Rightarrow> jsObject" where
  "tallyTasks days = fold (\<lambda>d freq. fold countTask (completedTasks d) freq) days []"

text \<open>
  \<^verbatim>\<open>Object.entries\<close>: the own properties whose key is an array index (a decimal number
  below \<open>2^32 - 1\<close> written without a leading zero) come first, in ascending numeric
  order; the others follow in the order of their creation.
\<close>

definition isDigit :: "char \<Rightarrow> bool" where
  "isDigit c = (48 \<le> (of_char c :: nat) \<and> (of_char c :: nat) \<le> 57)"

definition indexValue :: "string \<Rightarrow> nat" where
  "indexValue s = foldl (\<lambda>n c. 10 * n + (of_char c - 48)) 0 s"

definition isArrayIndex :: "string \<Rightarrow> bool" where
  "isArrayIndex s =
     (s \<noteq> [] \<and> list_all isDigit s \<and> (s = ''0'' \<or> hd s \<noteq> CHR ''0'')
      \<and> indexValue s < 2 ^ 32 - 1)"

definition entries :: "jsObject \<Rightarrow> jsObject" where
  "entries obj =
     sort_key (\<lambda>p. indexValue (fst p)) (filter (\<lambda>p. isArrayIndex (fst p)) obj)
     @ filter (\<lambda>p. \<not> isArrayIndex (fst p)) obj"

text \<open>
  The comparator \<^verbatim>\<open>(a, b) => b[1] - a[1]\<close>; \<open>None\<close> is the result \<^verbatim>\<open>NaN\<close>. Of the
  strings only those that \<open>plusOne\<close> builds occur, and none of them reads as a number.
\<close>

fun toNumber :: "jsval \<Rightarrow> int option" where
  "toNumber (Num n) = Some n"
| "toNumber v = None"

definition compareCounts :: "string \<times> jsval \<Rightarrow> string \<times> jsval \<Rightarrow> int option" where
  "compareCounts a b =
     (case (toNumber (snd b), toNumber (snd a)) of
        (Some y, Some x) \<Rightarrow> Some (y - x)
      | _ \<Rightarrow> None)"

text \<open>
  \<^verbatim>\<open>Array.prototype.sort\<close> with a comparator is stable: \<open>a\<close> goes after \<open>b\<close> only when
  the comparator's result for \<open>(a, b)\<close> is above 0, and \<^verbatim>\<open>NaN\<close> counts as 0. (With a
  comparator that is not a consistent order the result is left to the implementation;
  the insertion order below is then one permitted result.)
\<close>

fun insertBy :: "('a \<Rightarrow> 'a \<Rightarrow> int option) \<Rightarrow> 'a \<Rightarrow> 'a list \<Rightarrow> 'a list" where
  "insertBy cmp x [] = [x]"
| "insertBy cmp x (y # ys) =
     (if (case cmp x y of Some c \<Rightarrow> 0 < c | None \<Rightarrow> False)
      then y # insertBy cmp x ys
      else x # y # ys)"

definition sortBy :: "('a \<Rightarrow> 'a \<Rightarrow> int option) \<Rightarrow> 'a list \<Rightarrow> 'a list" where
  "sortBy cmp xs = foldr (insertBy cmp) xs []"

record freqEntry =
  task :: string
  count :: jsval

text \<open>The parameter \<^verbatim>\<open>limit\<close> is 5 when the caller gives none.\<close>

definition getTaskFrequency :: "day list \<Rightarrow> nat option \<Rightarrow> freqEntry list" where
  "getTaskFrequency days limit =
     map (\<lambda>(t, c). \<lparr>task = t, count = c\<rparr>)
       (take (case limit of None \<Rightarrow> 5 | Some l \<Rightarrow> l)
          (sortBy compareCounts (entries (tallyTasks days))))"

section \<open>The route /data\<close>



section \<open>The specification's notions\<close>





text \<open>
  The \<open>n\<close> consecutive calendar days that start at \<open>d\<close> all are in the set \<open>S\<close>: a run
  of length \<open>n\<close>. \<open>L\<close> is the maximum length of a run of consecutive days in \<open>S\<close>: a run
  of that length exists, and no run is longer.
\<close>

definition isRun :: "dateString set \<Rightarrow> dateString \<Rightarrow> nat \<Rightarrow> bool" where
  "isRun S d n = ({d ..< d + int n} \<subseteq> S)"

definition longestRun :: "dateString set \<Rightarrow> nat \<Rightarrow> bool" where
  "longestRun S L = ((\<exists>d. isRun S d L) \<and> (\<forall>d n. isRun S d n \<longrightarrow> n \<le> L))"

text \<open>
  The invariant of the loop of \<open>getLongestStreak\<close>, on the set \<open>P\<close> of the dates walked
  so far, the last of them \<open>a\<close>, and the two counters: \<open>current\<close> is the length of the run
  that ends at \<open>a\<close>, and \<open>longest\<close> the maximum length of a run in \<open>P\<close>.
\<close>

definition streakInv :: "dateString set \<Rightarrow> dateString \<Rightarrow> nat \<Rightarrow> nat \<Rightarrow> bool" where
  "streakInv P a current longest =
     ((\<forall>x\<in>P. x \<le> a) \<and> a \<in> P \<and> 1 \<le> current
      \<and> isRun P (a - int current + 1) current \<and> a - int current \<notin> P
      \<and> current \<le> longest \<and> longestRun P longest)"

section \<open>Facts about dates\<close>

lemma msPerDay_pos: "0 < msPerDay"
  by (simp add: msPerDay_def)

lemma toLocaleDateString_parseDate:
  assumes "0 \<le> off" and "off < msPerDay"
  shows "toLocaleDateString off (parseDate d) = d"
proof -
  have "(d * msPerDay + off) div msPerDay = d + off div msPerDay"
    using msPerDay_pos by (simp add: div_add1_eq)
  moreover have "off div msPerDay = 0"
    using assms by simp
  ultimately show ?thesis
    by (simp add: toLocaleDateString_def parseDate_def)
qed


lemma today_any_day: "today \<lparr>now = parseDate d, tzOffset = off\<rparr> = d"
  by (simp add: today_def toLocaleDateString_parseDate kolkataOffset_def msPerDay_def)

section \<open>The streak loop\<close>



section \<open>getWeeklySummary: the loop over the week\<close>












section \<open>getCurrentStreak: the streak that ends today\<close>



text \<open>
  The hypothesis on the zone is needed. The cursor is read as midnight UTC and printed
  in the zone of the process: west of UTC it prints as the day before, so a record for
  today alone gives the streak 0 in a process running at UTC-05:00.
\<close>

lemma getCurrentStreak_west_of_utc:
  "getCurrentStreak \<lparr>now = parseDate (isoDate 2024 1 5) + 16200000, tzOffset = - 18000000\<rparr>
     [submitDay (isoDate 2024 1 5) [''Read''] []] = Some 0"
  by (simp add: getCurrentStreak_def streakLoop.simps today_def toLocaleDateString_def
      parseDate_def isoDate_def msPerDay_def kolkataOffset_def submitDay_def)



section \<open>getLast7Dates\<close>



section \<open>getWeeklyMotivation\<close>

lemma motivation_messages_distinct:
  "distinct [msgStrongWeek, msgSteadyProgress, msgImperfect, msgResetWeek]"
  by (simp add: msgStrongWeek_def msgSteadyProgress_def msgImperfect_def msgResetWeek_def)

text \<open>
  Claim C5. \<open>getWeeklyMotivation\<close> returns the "strong week" text when the average is at
  least 4, the "steady progress" text when it is at least 2 and below 4 (so at 2 and at
  3.999), the "imperfect but moving" text when it is above 0 and below 2, and the "reset
  week" text when it is 0. The four texts are different from each other.
\<close>

theorem getWeeklyMotivation_tiers:
  "(4 \<le> avg \<longrightarrow> getWeeklyMotivation avg = msgStrongWeek)
   \<and> (2 \<le> avg \<and> avg < 4 \<longrightarrow> getWeeklyMotivation avg = msgSteadyProgress)
   \<and> (0 < avg \<and> avg < 2 \<longrightarrow> getWeeklyMotivation avg = msgImperfect)
   \<and> (avg = 0 \<longrightarrow> getWeeklyMotivation avg = msgResetWeek)
   \<and> getWeeklyMotivation 2 = msgSteadyProgress
   \<and> getWeeklyMotivation (3999 / 1000) = msgSteadyProgress
   \<and> distinct [msgStrongWeek, msgSteadyProgress, msgImperfect, msgResetWeek]"
  using motivation_messages_distinct by (simp add: getWeeklyMotivation_def)

theorem getWeeklyMotivation_tiers_witness:
  "getWeeklyMotivation (9 / 2) = msgStrongWeek
   \<and> getWeeklyMotivation (114 / 100) = msgImperfect
   \<and> getWeeklyMotivation 0 = msgResetWeek
   \<and> getWeeklyMotivation 4 \<noteq> getWeeklyMotivation 2"
  using getWeeklyMotivation_tiers[of "9 / 2"] getWeeklyMotivation_tiers[of "114 / 100"]
    getWeeklyMotivation_tiers[of 0] getWeeklyMotivation_tiers[of 4]
  by simp

section \<open>getMotivationMessage\<close>

lemma length_motivationMessages: "length motivationMessages = 24"
  by (simp add: motivationMessages_def)

text \<open>
  Claim C9. The pool of messages is not empty, and for every value of the random source
  from 0 (included) to 1 (excluded) the index computed is within the bounds of the pool,
  so that \<open>getMotivationMessage\<close> returns a member of the pool and never reads outside
  it. (The product is taken exactly; the floating-point product of a number below 1 and
  24 is below 24 as well, since rounding is monotone and the largest such number gives
  24 - 2^-48.)
\<close>

theorem getMotivationMessage_in_pool:
  assumes "0 \<le> random" and "random < 1"
  shows "motivationMessages \<noteq> []
       \<and> 0 \<le> \<lfloor>random * of_nat (length motivationMessages)\<rfloor>
       \<and> \<lfloor>random * of_nat (length motivationMessages)\<rfloor> < int (length motivationMessages)
       \<and> (\<exists>m. getMotivationMessage random = Some m \<and> m \<in> set motivationMessages)"
proof -
  let ?index = "\<lfloor>random * of_nat (length motivationMessages)\<rfloor>"
  have ne: "motivationMessages \<noteq> []"
    using length_motivationMessages by auto
  have lo: "0 \<le> ?index"
    using assms(1) by (simp add: length_motivationMessages)
  have "random * 24 < 24"
    using assms(2) by simp
  then have hi: "?index < int (length motivationMessages)"
    by (simp add: length_motivationMessages floor_less_iff)
  from lo hi have "nat ?index < length motivationMessages"
    by linarith
  then have "motivationMessages ! nat ?index \<in> set motivationMessages"
    by (rule nth_mem)
  moreover have "getMotivationMessage random = Some (motivationMessages ! nat ?index)"
    using lo hi by (simp add: getMotivationMessage_def Let_def)
  ultimately show ?thesis
    using ne lo hi by blast
qed

theorem getMotivationMessage_in_pool_witness:
  "getMotivationMessage (999 / 1000) = Some (motivationMessages ! 23)
   \<and> motivationMessages ! 23 \<in> set motivationMessages"
proof -
  have "\<lfloor>(999 / 1000 :: rat) * 24\<rfloor> = 23"
    by (simp add: floor_eq_iff)
  then show ?thesis
    using getMotivationMessage_in_pool[of "999 / 1000"]
    by (simp add: getMotivationMessage_def length_motivationMessages)
qed

section \<open>getWeeklySummary\<close>







section \<open>getLongestStreak: the walk over the sorted dates\<close>

lemma diff_is_one_day:
  "((of_int (parseDate b - parseDate a) :: rat) / of_int msPerDay = 1) = (b - a = 1)"
proof -
  have "parseDate b - parseDate a = (b - a) * msPerDay"
    by (simp add: parseDate_def algebra_simps)
  then have "(of_int (parseDate b - parseDate a) :: rat) / of_int msPerDay = of_int (b - a)"
    using msPerDay_pos by simp
  then show ?thesis
    by (simp only: of_int_eq_1_iff)
qed

lemma sort_map_parseDate: "sort (map parseDate xs) = map parseDate (sort xs)"
proof (rule properties_for_sort)
  show "mset (map parseDate (sort xs)) = mset (map parseDate xs)"
    by simp
  have "sorted_wrt (\<lambda>x y. parseDate x \<le> parseDate y) (sort xs)"
    using sorted_sort[of xs] msPerDay_pos
    by (rule_tac sorted_wrt_mono_rel[where P = "(\<le>)"]) (auto simp: parseDate_def)
  then show "sorted (map parseDate (sort xs))"
    by (simp add: sorted_map)
qed

lemma isRun_iff: "isRun S d n = (\<forall>x. d \<le> x \<and> x < d + int n \<longrightarrow> x \<in> S)"
  by (auto simp: isRun_def)

lemma isRunD: "isRun S d n \<Longrightarrow> d \<le> x \<Longrightarrow> x < d + int n \<Longrightarrow> x \<in> S"
  by (simp add: isRun_iff)

lemma isRun_mono: "isRun P d n \<Longrightarrow> P \<subseteq> Q \<Longrightarrow> isRun Q d n"
  by (auto simp: isRun_def)

lemma isRun_insert_top:
  assumes "isRun (insert b P) d n" and "\<forall>x\<in>P. x < b"
  shows "isRun P d n \<or> (0 < n \<and> d + int n - 1 = b)"
proof (cases "d \<le> b \<and> b < d + int n")
  case False
  have "x \<in> P" if "d \<le> x" "x < d + int n" for x
    using isRunD[OF assms(1) that] False that by auto
  then show ?thesis
    by (simp add: isRun_iff)
next
  case True
  then have pos: "0 < n" by auto
  then have "d + int n - 1 \<in> insert b P"
    using assms(1) by (intro isRunD[of _ d n]) auto
  then have "d + int n - 1 \<le> b"
    using assms(2) by auto
  with True pos show ?thesis by auto
qed

lemma streakInv_consecutive:
  assumes "streakInv P a current longest"
  shows "streakInv (insert (a + 1) P) (a + 1) (current + 1) (max longest (current + 1))"
proof -
  let ?b = "a + 1" and ?P = "insert (a + 1) P"
  from assms have top: "\<forall>x\<in>P. x \<le> a" and cur: "1 \<le> current"
    and run: "isRun P (a - int current + 1) current" and stop: "a - int current \<notin> P"
    and le: "current \<le> longest" and ex: "\<exists>d. isRun P d longest"
    and mx: "\<forall>d n. isRun P d n \<longrightarrow> n \<le> longest"
    by (simp_all add: streakInv_def longestRun_def)
  have below: "\<forall>x\<in>P. x < ?b"
    using top by auto
  have "x \<in> ?P" if "?b - int (current + 1) + 1 \<le> x" "x < ?b - int (current + 1) + 1 + int (current + 1)" for x
  proof (cases "x = ?b")
    case False
    then have "a - int current + 1 \<le> x" "x < a - int current + 1 + int current"
      using that by simp_all
    from isRunD[OF run this] show ?thesis by simp
  qed simp
  then have run': "isRun ?P (?b - int (current + 1) + 1) (current + 1)"
    unfolding isRun_iff by blast
  have stop': "?b - int (current + 1) \<notin> ?P"
    using stop by auto
  have ex': "\<exists>d. isRun ?P d (max longest (current + 1))"
  proof (cases "current + 1 \<le> longest")
    case True
    then show ?thesis
      using ex isRun_mono[of P _ longest ?P] by (auto simp: max_def)
  next
    case False
    then show ?thesis
      using run' by (auto simp: max_def)
  qed
  have mx': "n \<le> max longest (current + 1)" if r: "isRun ?P d n" for d n
  proof -
    from isRun_insert_top[OF r below] show ?thesis
    proof
      assume "isRun P d n"
      then show ?thesis using mx by (simp add: le_max_iff_disj)
    next
      assume e: "0 < n \<and> d + int n - 1 = ?b"
      have "n \<le> current + 1"
      proof (rule ccontr)
        assume "\<not> n \<le> current + 1"
        then have "d \<le> a - int current" "a - int current < d + int n"
          using e by auto
        from isRunD[OF r this] show False
          using stop' by simp
      qed
      then show ?thesis by simp
    qed
  qed
  show ?thesis
    unfolding streakInv_def longestRun_def
    using below cur run' stop' ex' mx' by auto
qed

lemma streakInv_gap:
  assumes "streakInv P a current longest" and "a + 1 < b"
  shows "streakInv (insert b P) b 1 longest"
proof -
  let ?P = "insert b P"
  from assms have top: "\<forall>x\<in>P. x \<le> a" and cur: "1 \<le> current"
    and le: "current \<le> longest" and ex: "\<exists>d. isRun P d longest"
    and mx: "\<forall>d n. isRun P d n \<longrightarrow> n \<le> longest"
    by (simp_all add: streakInv_def longestRun_def)
  have below: "\<forall>x\<in>P. x < b"
    using top assms(2) by auto
  have run': "isRun ?P (b - int 1 + 1) 1"
    by (simp add: isRun_iff)
  have stop': "b - int 1 \<notin> ?P"
    using top assms(2) by auto
  have ex': "\<exists>d. isRun ?P d longest"
    using ex isRun_mono[of P _ longest ?P] by auto
  have mx': "n \<le> longest" if r: "isRun ?P d n" for d n
  proof -
    from isRun_insert_top[OF r below] show ?thesis
    proof
      assume "isRun P d n"
      then show ?thesis using mx by simp
    next
      assume e: "0 < n \<and> d + int n - 1 = b"
      have "n \<le> 1"
      proof (rule ccontr)
        assume "\<not> n \<le> 1"
        then have "d \<le> b - 1" "b - 1 < d + int n"
          using e by auto
        from isRunD[OF r this] show False
          using stop' by simp
      qed
      then show ?thesis using cur le by simp
    qed
  qed
  show ?thesis
    unfolding streakInv_def longestRun_def
    using below cur le run' stop' ex' mx' by auto
qed

lemma streakInv_first: "streakInv {a} a 1 1"
proof -
  have "n \<le> 1" if r: "isRun {a} d n" for d n
  proof (rule ccontr)
    assume "\<not> n \<le> 1"
    then have "d < d + int n" and "d + 1 < d + int n"
      by simp_all
    then have "d \<in> {a}" and "d + 1 \<in> {a}"
      using isRunD[OF r, of d] isRunD[OF r, of "d + 1"] by simp_all
    then show False by simp
  qed
  moreover have "isRun {a} (a - int 1 + 1) 1"
    by (simp add: isRun_iff)
  moreover have "\<exists>d. isRun {a} d 1"
    by (rule exI[of _ a]) (simp add: isRun_iff)
  ultimately show ?thesis
    unfolding streakInv_def longestRun_def by simp
qed


lemma strict_sorted_nth:
  assumes "sorted ds" and "distinct ds" and "i < j" and "j < length ds"
  shows "ds ! i < (ds ! j :: int)"
proof -
  have "ds ! i \<le> ds ! j"
    using assms by (simp add: sorted_nth_mono)
  moreover have "ds ! i \<noteq> ds ! j"
    using assms by (simp add: nth_eq_iff_index_eq)
  ultimately show ?thesis by simp
qed

lemma longestLoop_inv:
  assumes "sorted ds" and "distinct ds" and "0 < i" and "i \<le> length ds"
    and "streakInv (set (take i ds)) (ds ! (i - 1)) current longest"
  shows "longestRun (set ds) (longestLoop (map parseDate ds) i current longest)"
  using assms(3-5)
proof (induction "length ds - i" arbitrary: i current longest)
  case 0
  then have "i = length ds" by simp
  then have "longestLoop (map parseDate ds) i current longest = longest"
    by (subst longestLoop.simps) simp
  moreover have "longestRun (set ds) longest"
    using "0.prems"(3) \<open>i = length ds\<close> by (simp add: streakInv_def)
  ultimately show ?case by simp
next
  case (Suc k)
  then have ilt: "i < length ds" by simp
  let ?a = "ds ! (i - 1)" and ?b = "ds ! i"
  have lt: "?a < ?b"
    using strict_sorted_nth[OF assms(1,2), of "i - 1" i] Suc.prems(1) ilt by simp
  have take: "set (take (Suc i) ds) = insert ?b (set (take i ds))"
    using ilt by (simp add: take_Suc_conv_app_nth)
  have k: "k = length ds - Suc i"
    using Suc.hyps(2) by simp
  have nth: "map parseDate ds ! i = parseDate ?b" "map parseDate ds ! (i - 1) = parseDate ?a"
    using ilt by simp_all
  have test: "((of_int (map parseDate ds ! i - map parseDate ds ! (i - 1)) :: rat) / of_int msPerDay = 1)
      = (?b - ?a = 1)"
    unfolding nth by (rule diff_is_one_day)
  have more: "i < length (map parseDate ds)"
    using ilt by simp
  show ?case
  proof (cases "?b - ?a = 1")
    case True
    then have b: "?b = ?a + 1" by simp
    have "streakInv (set (take (Suc i) ds)) (ds ! (Suc i - 1)) (current + 1) (max longest (current + 1))"
      using streakInv_consecutive[OF Suc.prems(3)] take b by simp
    then have "longestRun (set ds)
        (longestLoop (map parseDate ds) (Suc i) (current + 1) (max longest (current + 1)))"
      using Suc.hyps(1)[OF k] ilt by simp
    moreover have "longestLoop (map parseDate ds) i current longest =
        longestLoop (map parseDate ds) (Suc i) (current + 1) (max longest (current + 1))"
      by (subst longestLoop.simps, simp only: Let_def test more True if_True, simp)
    ultimately show ?thesis by simp
  next
    case False
    then have gap: "?a + 1 < ?b"
      using lt by simp
    have "streakInv (set (take (Suc i) ds)) (ds ! (Suc i - 1)) 1 longest"
      using streakInv_gap[OF Suc.prems(3) gap] take by simp
    then have "longestRun (set ds) (longestLoop (map parseDate ds) (Suc i) 1 longest)"
      using Suc.hyps(1)[OF k] ilt by simp
    moreover have "longestLoop (map parseDate ds) i current longest =
        longestLoop (map parseDate ds) (Suc i) 1 longest"
      by (subst longestLoop.simps, simp only: Let_def test more False if_True if_False, simp)
    ultimately show ?thesis by simp
  qed
qed

lemma getLongestStreak_sorted_dates:
  "getLongestStreak days =
     (if days = [] then 0 else longestLoop (map parseDate (sort (map date days))) 1 1 1)"
proof -
  have "map (\<lambda>d. parseDate (date d)) days = map parseDate (map date days)"
    by simp
  then show ?thesis
    by (simp only: getLongestStreak_def sort_map_parseDate length_0_conv)
qed

lemma longestRun_unique: "longestRun S m \<Longrightarrow> longestRun S n \<Longrightarrow> m = n"
  by (auto simp: longestRun_def intro: le_antisym)

section \<open>getLongestStreak\<close>

lemma longestRun_empty: "longestRun {} 0"
  by (auto simp: longestRun_def isRun_iff intro: exI[of _ 0])

lemma getLongestStreak_example:
  assumes "distinct (map date days)"
    and "set (map date days) = {isoDate 2024 1 1, isoDate 2024 1 2, isoDate 2024 1 3, isoDate 2024 1 10}"
  shows "getLongestStreak days = 3"
proof -
  let ?ex = "[isoDate 2024 1 1, isoDate 2024 1 2, isoDate 2024 1 3, isoDate 2024 1 10]"
  have "distinct ?ex" and sorted: "sorted ?ex"
    by (simp_all add: isoDate_def)
  moreover have "set (map date days) = set ?ex"
    using assms(2) by simp
  ultimately have "mset ?ex = mset (map date days)"
    using assms(1) by (simp only: set_eq_iff_mset_eq_distinct)
  then have "sort (map date days) = ?ex"
    using sorted by (rule properties_for_sort)
  moreover have "days \<noteq> []"
    using assms(2) by auto
  ultimately have "getLongestStreak days = longestLoop (map parseDate ?ex) 1 1 1"
    by (simp add: getLongestStreak_sorted_dates)
  also have "\<dots> = 3"
    by (simp add: longestLoop.simps parseDate_def isoDate_def msPerDay_def)
  finally show ?thesis .
qed

text \<open>
  Claim C2. For day records with distinct dates, \<open>getLongestStreak\<close> is the maximum
  length of a run of consecutive calendar days among the dates of the records: such a
  run exists and none is longer. The empty list gives 0, a single record gives 1, and
  records whose dates are 2024-01-01, 2024-01-02, 2024-01-03 and 2024-01-10, in any
  order, give 3. The value does not depend on the zone of the process.
\<close>

theorem getLongestStreak_longest_run:
  assumes "distinct (map date days)"
  shows "longestRun (set (map date days)) (getLongestStreak days)
       \<and> getLongestStreak [] = 0
       \<and> getLongestStreak [r] = 1
       \<and> (set (map date days) =
            {isoDate 2024 1 1, isoDate 2024 1 2, isoDate 2024 1 3, isoDate 2024 1 10}
          \<longrightarrow> getLongestStreak days = 3)"
proof -
  have main: "longestRun (set (map date days)) (getLongestStreak days)"
  proof (cases "days = []")
    case True
    then show ?thesis
      by (simp add: getLongestStreak_def longestRun_empty)
  next
    case False
    let ?ds = "sort (map date days)"
    have ne: "?ds \<noteq> []"
      using False by (metis length_sort length_map length_0_conv)
    then have first: "set (take 1 ?ds) = {?ds ! 0}"
      by (cases ?ds) simp_all
    have inv: "streakInv (set (take 1 ?ds)) (?ds ! (1 - 1)) 1 1"
      unfolding first using streakInv_first[of "?ds ! 0"] by simp
    have srt: "sorted ?ds" and dst: "distinct ?ds" and pos: "(0::nat) < 1"
      and len: "1 \<le> length ?ds"
      using assms False by (simp_all add: Suc_le_eq)
    have "longestRun (set ?ds) (longestLoop (map parseDate ?ds) 1 1 1)"
      by (rule longestLoop_inv[OF srt dst pos len inv])
    then show ?thesis
      using False by (simp add: getLongestStreak_sorted_dates)
  qed
  have "getLongestStreak [] = 0"
    by (simp add: getLongestStreak_def)
  moreover have "getLongestStreak [r] = 1"
    by (simp add: getLongestStreak_def longestLoop.simps)
  ultimately show ?thesis
    using main getLongestStreak_example[OF assms] by blast
qed

theorem getLongestStreak_longest_run_witness:
  "getLongestStreak
     [submitDay (isoDate 2024 1 10) [''Read''] [],
      submitDay (isoDate 2024 1 2) [''Read'', ''Run''] [],
      submitDay (isoDate 2024 1 1) [''Run''] [],
      submitDay (isoDate 2024 1 3) [''Read''] []] = 3
   \<and> longestRun {isoDate 2024 1 10, isoDate 2024 1 2, isoDate 2024 1 1, isoDate 2024 1 3} 3"
proof -
  let ?days = "[submitDay (isoDate 2024 1 10) [''Read''] [],
      submitDay (isoDate 2024 1 2) [''Read'', ''Run''] [],
      submitDay (isoDate 2024 1 1) [''Run''] [],
      submitDay (isoDate 2024 1 3) [''Read''] []]"
  have d: "distinct (map date ?days)"
    by (simp add: submitDay_def isoDate_def)
  have s: "set (map date ?days) =
      {isoDate 2024 1 1, isoDate 2024 1 2, isoDate 2024 1 3, isoDate 2024 1 10}"
    by (auto simp: submitDay_def)
  have three: "getLongestStreak ?days = 3"
    using getLongestStreak_longest_run[OF d] s by blast
  have "longestRun (set (map date ?days)) (getLongestStreak ?days)"
    using getLongestStreak_longest_run[OF d] by blast
  then have "longestRun {isoDate 2024 1 10, isoDate 2024 1 2, isoDate 2024 1 1, isoDate 2024 1 3} 3"
    unfolding three by (simp add: submitDay_def)
  with three show ?thesis by simp
qed

text \<open>
  The dates have to be distinct: the code does not remove duplicates, and a date that
  occurs twice ends the running length.
\<close>

lemma getLongestStreak_duplicates:
  "getLongestStreak
     [submitDay (isoDate 2024 1 1) [''Read''] [],
      submitDay (isoDate 2024 1 2) [''Read''] [],
      submitDay (isoDate 2024 1 2) [''Run''] [],
      submitDay (isoDate 2024 1 3) [''Read''] []] = 2"
  by (simp add: getLongestStreak_def longestLoop.simps parseDate_def isoDate_def msPerDay_def submitDay_def)

section \<open>The operations as functions of the day records and of today\<close>





text \<open>
  The clock itself is read: the same day records give another streak on the next day.
\<close>

lemma getCurrentStreak_reads_clock:
  "getCurrentStreak \<lparr>now = parseDate (isoDate 2024 1 5) + 16200000, tzOffset = 0\<rparr>
     [submitDay (isoDate 2024 1 5) [''Read''] []] = Some 1
   \<and> getCurrentStreak \<lparr>now = parseDate (isoDate 2024 1 6) + 16200000, tzOffset = 0\<rparr>
     [submitDay (isoDate 2024 1 5) [''Read''] []] = Some 0"
  by (simp add: getCurrentStreak_def streakLoop.simps today_def toLocaleDateString_def
      parseDate_def isoDate_def msPerDay_def kolkataOffset_def submitDay_def setDatePrev_def)

section \<open>getTaskFrequency: the tally and the sort\<close>

lemma map_of_setOwn: "map_of (setOwn k v obj) = (map_of obj)(k \<mapsto> v)"
  by (induction obj) auto

lemma keys_setOwn: "set (map fst (setOwn k v obj)) = insert k (set (map fst obj))"
  by (induction obj) auto

lemma distinct_setOwn: "distinct (map fst obj) \<Longrightarrow> distinct (map fst (setOwn k v obj))"
  by (induction obj) (auto simp: keys_setOwn[simplified])

lemma countTask_step:
  assumes "inherited t = Undefined"
    and "distinct (map fst obj)"
    and "\<And>k. map_of obj k = (if c k = 0 then None else Some (Num (int (c k))))"
  shows "distinct (map fst (countTask t obj))"
    and "map_of (countTask t obj) k =
           (if (c(t := c t + 1)) k = 0 then None else Some (Num (int ((c(t := c t + 1)) k))))"
proof -
  have np: "t \<noteq> ''__proto__''"
    using assms(1) by (auto simp: inherited_def objectPrototypeMethods_def)
  have "plusOne (orZero (getProp obj t)) = Num (int (c t + 1))"
    using assms(1) assms(3)[of t] by (simp add: getProp_def orZero_def)
  then have ct: "countTask t obj = setOwn t (Num (int (c t + 1))) obj"
    using np by (simp add: countTask_def setProp_def)
  show "distinct (map fst (countTask t obj))"
    unfolding ct using assms(2) by (rule distinct_setOwn)
  show "map_of (countTask t obj) k =
           (if (c(t := c t + 1)) k = 0 then None else Some (Num (int ((c(t := c t + 1)) k))))"
    unfolding ct using assms(3)[of k] by (simp add: map_of_setOwn)
qed

lemma fold_countTask:
  assumes "\<forall>t\<in>set ts. inherited t = Undefined"
    and "distinct (map fst obj)"
    and "\<And>k. map_of obj k = (if c k = 0 then None else Some (Num (int (c k))))"
  shows "distinct (map fst (fold countTask ts obj))
       \<and> (\<forall>k. map_of (fold countTask ts obj) k =
             (if c k + count_list ts k = 0 then None
              else Some (Num (int (c k + count_list ts k)))))"
  using assms
proof (induction ts arbitrary: obj c)
  case Nil
  then show ?case by simp
next
  case (Cons t ts)
  have t: "inherited t = Undefined" and rest: "\<forall>t\<in>set ts. inherited t = Undefined"
    using Cons.prems(1) by simp_all
  note step = countTask_step[OF t Cons.prems(2), of c, OF Cons.prems(3)]
  have "distinct (map fst (fold countTask ts (countTask t obj)))
       \<and> (\<forall>k. map_of (fold countTask ts (countTask t obj)) k =
             (if (c(t := c t + 1)) k + count_list ts k = 0 then None
              else Some (Num (int ((c(t := c t + 1)) k + count_list ts k)))))"
    by (rule Cons.IH[OF rest step(1)]) (rule step(2))
  then show ?case
    by (auto simp: add.commute)
qed

lemma fold_fold_concat:
  "fold (\<lambda>d. fold f (g d)) ds a = fold f (concat (map g ds)) a"
  by (induction ds arbitrary: a) simp_all

lemma tallyTasks_concat:
  "tallyTasks days = fold countTask (concat (map completedTasks days)) []"
  by (simp add: tallyTasks_def fold_fold_concat)

lemma tallyTasks_counts:
  assumes "\<forall>t\<in>set (concat (map completedTasks days)). inherited t = Undefined"
  shows "distinct (map fst (tallyTasks days))"
    and "map_of (tallyTasks days) k =
           (if count_list (concat (map completedTasks days)) k = 0 then None
            else Some (Num (int (count_list (concat (map completedTasks days)) k))))"
  using fold_countTask[OF assms, of "[]" "\<lambda>k. 0"]
  by (simp_all add: tallyTasks_concat)

lemma mset_entries: "mset (entries obj) = mset obj"
  by (simp add: entries_def)

lemma set_insertBy: "set (insertBy cmp x ys) = insert x (set ys)"
  by (induction ys) auto

lemma mset_insertBy: "mset (insertBy cmp x ys) = add_mset x (mset ys)"
  by (induction ys) auto

lemma mset_sortBy: "mset (sortBy cmp xs) = mset xs"
  by (induction xs) (simp_all add: sortBy_def mset_insertBy)

lemma sorted_insertBy:
  assumes "\<forall>p\<in>set (x # ys). snd p = Num (f (fst p))"
    and "sorted_wrt (\<lambda>a b. f (fst b) \<le> f (fst a)) ys"
  shows "sorted_wrt (\<lambda>a b. f (fst b) \<le> f (fst a)) (insertBy compareCounts x ys)"
  using assms
proof (induction ys)
  case Nil
  then show ?case by simp
next
  case (Cons y ys)
  have x: "snd x = Num (f (fst x))" and y: "snd y = Num (f (fst y))"
    using Cons.prems(1) by simp_all
  show ?case
  proof (cases "f (fst x) < f (fst y)")
    case True
    then have "insertBy compareCounts x (y # ys) = y # insertBy compareCounts x ys"
      by (simp add: compareCounts_def x y)
    moreover have "sorted_wrt (\<lambda>a b. f (fst b) \<le> f (fst a)) (insertBy compareCounts x ys)"
      using Cons by simp
    ultimately show ?thesis
      using Cons.prems(2) True by (auto simp: set_insertBy)
  next
    case False
    then have "insertBy compareCounts x (y # ys) = x # y # ys"
      by (simp add: compareCounts_def x y)
    then show ?thesis
      using Cons.prems(2) False by auto
  qed
qed

lemma sorted_sortBy:
  assumes "\<forall>p\<in>set xs. snd p = Num (f (fst p))"
  shows "sorted_wrt (\<lambda>a b. f (fst b) \<le> f (fst a)) (sortBy compareCounts xs)"
  using assms
proof (induction xs)
  case Nil
  then show ?case by (simp add: sortBy_def)
next
  case (Cons x xs)
  have "set (sortBy compareCounts xs) = set xs"
    using mset_sortBy[of compareCounts xs] by (metis set_mset_mset)
  then have "\<forall>p\<in>set (x # sortBy compareCounts xs). snd p = Num (f (fst p))"
    using Cons.prems by simp
  moreover have "sorted_wrt (\<lambda>a b. f (fst b) \<le> f (fst a)) (sortBy compareCounts xs)"
    using Cons by simp
  ultimately have "sorted_wrt (\<lambda>a b. f (fst b) \<le> f (fst a))
      (insertBy compareCounts x (sortBy compareCounts xs))"
    by (rule sorted_insertBy)
  then show ?case
    by (simp add: sortBy_def)
qed

section \<open>getTaskFrequency\<close>

text \<open>
  When no task is named like a property of \<^verbatim>\<open>Object.prototype\<close>, the result is the
  list of the task names with their numbers of occurrences over all the records (a name
  that occurs twice in one record counting twice), each name once, sorted by count in
  descending order and cut to its first \<open>limit\<close> entries.
\<close>

lemma getTaskFrequency_counts:
  assumes "\<forall>t\<in>set (concat (map completedTasks days)). inherited t = Undefined"
  shows "\<exists>full. getTaskFrequency days (Some limit) = take limit full
          \<and> distinct (map task full)
          \<and> set (map task full) = set (concat (map completedTasks days))
          \<and> (\<forall>e\<in>set full.
               count e = Num (int (count_list (concat (map completedTasks days)) (task e))))
          \<and> sorted_wrt (\<lambda>a b. count_list (concat (map completedTasks days)) (task b)
                               \<le> count_list (concat (map completedTasks days)) (task a)) full"
proof -
  let ?ts = "concat (map completedTasks days)"
  let ?obj = "tallyTasks days"
  let ?srt = "sortBy compareCounts (entries ?obj)"
  let ?mk = "\<lambda>(t, c). \<lparr>task = t, count = c\<rparr>"
  let ?full = "map ?mk ?srt"
  note tally = tallyTasks_counts[OF assms]
  have ms: "mset ?srt = mset ?obj"
    by (simp add: mset_sortBy mset_entries)
  then have st: "set ?srt = set ?obj"
    by (metis set_mset_mset)
  have tk: "map task ?full = map fst ?srt"
    by (simp add: comp_def case_prod_beta)
  have "mset (map fst ?srt) = mset (map fst ?obj)"
    using ms by (metis mset_map)
  then have d: "distinct (map fst ?srt)"
    using tally(1) by (metis mset_eq_imp_distinct_iff)
  have "k \<in> fst ` set ?obj \<longleftrightarrow> k \<in> set ?ts" for k
  proof -
    have "k \<in> fst ` set ?obj \<longleftrightarrow> map_of ?obj k \<noteq> None"
      by (simp add: map_of_eq_None_iff)
    also have "\<dots> \<longleftrightarrow> count_list ?ts k \<noteq> 0"
      by (simp add: tally(2))
    also have "\<dots> \<longleftrightarrow> k \<in> set ?ts"
      by (simp add: count_list_0_iff)
    finally show ?thesis .
  qed
  then have keys: "set (map fst ?srt) = set ?ts"
    using st by auto
  have vals: "snd p = Num (int (count_list ?ts (fst p)))" if "p \<in> set ?obj" for p
  proof -
    have "map_of ?obj (fst p) = Some (snd p)"
      using that tally(1) by simp
    then show ?thesis
      by (simp add: tally(2) split: if_splits)
  qed
  then have "\<forall>p\<in>set (entries ?obj). snd p = Num (int (count_list ?ts (fst p)))"
    using mset_entries[of ?obj] by (metis set_mset_mset)
  then have "sorted_wrt (\<lambda>a b. int (count_list ?ts (fst b)) \<le> int (count_list ?ts (fst a))) ?srt"
    by (rule sorted_sortBy)
  then have srt: "sorted_wrt (\<lambda>a b. count_list ?ts (task b) \<le> count_list ?ts (task a)) ?full"
    by (simp add: sorted_wrt_map case_prod_beta)
  have "getTaskFrequency days (Some limit) = take limit ?full"
    by (simp add: getTaskFrequency_def take_map)
  moreover have "distinct (map task ?full)"
    unfolding tk by (rule d)
  moreover have "set (map task ?full) = set ?ts"
    unfolding tk by (rule keys)
  moreover have "\<forall>e\<in>set ?full. count e = Num (int (count_list ?ts (task e)))"
    using vals st by (auto simp: case_prod_beta)
  ultimately show ?thesis
    using srt by blast
qed

text \<open>
  Claim C6 says that \<open>getTaskFrequency\<close> returns, for each task name, the number of its
  occurrences. The code gives the result of the specification's example (B 3 times, A
  twice). It does not count a task named like a property of \<^verbatim>\<open>Object.prototype\<close>: the
  tally is an object created by \<^verbatim>\<open>{}\<close>, the first lookup of such a name finds the
  inherited function or object instead of nothing, and adding 1 to it makes a string. A
  task \<^verbatim>\<open>constructor\<close> completed once gets the count
  \<^verbatim>\<open>function Object() { [native code] }1\<close>, and a task \<^verbatim>\<open>__proto__\<close> is left out of the
  result.
\<close>

theorem getTaskFrequency_inherited_names:
  "getTaskFrequency
     [submitDay d1 [''A'', ''B''] [], submitDay d2 [''A''] [], submitDay d3 [''B'', ''B''] []] (Some 2)
     = [\<lparr>task = ''B'', count = Num 3\<rparr>, \<lparr>task = ''A'', count = Num 2\<rparr>]
   \<and> getTaskFrequency [submitDay d1 [''constructor''] []] (Some 2)
     = [\<lparr>task = ''constructor'', count = Str ''function Object() { [native code] }1''\<rparr>]
   \<and> getTaskFrequency [submitDay d1 [''toString'', ''toString''] []] (Some 2)
     = [\<lparr>task = ''toString'', count = Str ''function toString() { [native code] }11''\<rparr>]
   \<and> getTaskFrequency [submitDay d1 [''__proto__''] []] (Some 2) = []"
  by (simp add: getTaskFrequency_def tallyTasks_def submitDay_def countTask_def setProp_def
      getProp_def inherited_def objectPrototypeMethods_def orZero_def entries_def
      isArrayIndex_def isDigit_def sortBy_def compareCounts_def)


end
